theory Spec2Isabelle
  imports Main
begin

section \<open>Go primitives used by the authentication code\<close>

text \<open>
  Instants and durations are counted in nanoseconds, as \<^verbatim>\<open>time.Duration\<close> does.
  A \<^verbatim>\<open>time.Duration\<close> is an \<^verbatim>\<open>int64\<close>: the product
  \<^verbatim>\<open>time.Duration(n) * time.Second\<close> wraps around.
\<close>

type_synonym time = int
type_synonym duration = int

definition wrap64 :: "int \<Rightarrow> int" where
  "wrap64 v = (v + 9223372036854775808) mod 18446744073709551616 - 9223372036854775808"

definition Second :: duration where
  "Second = 1000000000"

definition Hour :: duration where
  "Hour = 3600 * Second"

definition seconds :: "int \<Rightarrow> duration" where
  "seconds n = wrap64 (n * Second)"

text \<open>
  A Go \<^verbatim>\<open>error\<close> value, by where it was made; \<open>error_string\<close> is its
  \<^verbatim>\<open>Error()\<close> method. \<open>Errorf\<close> holds the message that \<^verbatim>\<open>fmt.Errorf\<close> built.
\<close>

datatype go_error = NetError string | JSONError string | Errorf string

fun error_string :: "go_error \<Rightarrow> string" where
  "error_string (NetError m) = m"
| "error_string (JSONError m) = m"
| "error_string (Errorf m) = m"

subsection \<open>The ticker\<close>

text \<open>
  \<^verbatim>\<open>time.NewTicker(d)\<close> panics when \<open>d \<le> 0\<close>. Otherwise it fires every \<open>d\<close>
  nanoseconds into a channel that holds one tick; a tick that finds the channel full is
  dropped, and the schedule stays aligned with the creation time.
\<close>

record ticker =
  period :: duration
  next_tick :: time
  full :: bool

definition NewTicker :: "duration \<Rightarrow> time \<Rightarrow> ticker option" where
  "NewTicker d now = (if d \<le> 0 then None
     else Some \<lparr>period = d, next_tick = now + d, full = False\<rparr>)"

text \<open>All ticks due by the instant \<open>now\<close> fire: the first fills the channel.\<close>

definition advance :: "ticker \<Rightarrow> time \<Rightarrow> ticker" where
  "advance tk now = (if next_tick tk \<le> now
     then tk\<lparr>next_tick := next_tick tk + ((now - next_tick tk) div period tk + 1) * period tk,
             full := True\<rparr>
     else tk)"

text \<open>
  \<^verbatim>\<open><-ticker.C\<close> begun at the instant \<open>now\<close>: a buffered tick is taken at once;
  otherwise the receiver sleeps until the next tick. The result is the ticker afterwards
  and the instant at which the receive completes.
\<close>

definition receive :: "ticker \<Rightarrow> time \<Rightarrow> ticker \<times> time" where
  "receive tk now = (let tk' = advance tk now in
     if full tk' then (tk'\<lparr>full := False\<rparr>, now)
     else (tk'\<lparr>next_tick := next_tick tk' + period tk'\<rparr>, next_tick tk'))"

section \<open>The device-flow client\<close>

text \<open>
  \<^verbatim>\<open>TokenResponse\<close>; the fields carry their JSON names, since the configuration
  record below has Go fields of the same names.
\<close>

record TokenResponse =
  access_token :: string
  refresh_token :: string
  token_type :: string
  expires_in :: int
  error :: string

text \<open>
  What one POST to the token endpoint does: \<^verbatim>\<open>client.Do\<close> fails, reading the body
  fails, the body is not JSON for a \<^verbatim>\<open>TokenResponse\<close>, or it decodes. The HTTP status
  is absent: \<^verbatim>\<open>checkToken\<close> never reads it.
\<close>

datatype token_reply =
    DoFailed string
  | ReadFailed string
  | BadJSON string
  | Body TokenResponse

text \<open>
  The server and the network, as seen by the poll loop: the \<open>k\<close>-th call of
  \<^verbatim>\<open>checkToken\<close> is answered after a latency (in nanoseconds; a negative one counts
  as none) with a reply.
\<close>

type_synonym token_server = "nat \<Rightarrow> duration \<times> token_reply"

definition clientTimeout :: duration where
  "clientTimeout = 10 * Second"

text \<open>
  \<^verbatim>\<open>checkToken\<close> returns a pair \<^verbatim>\<open>(*TokenResponse, error)\<close>; \<open>None\<close> is \<^verbatim>\<open>nil\<close>.
  The first component of the result is the time the call took: the client gives up after
  \<open>clientTimeout\<close>.
\<close>

definition checkToken :: "duration \<times> token_reply \<Rightarrow> duration \<times> TokenResponse option \<times> go_error option" where
  "checkToken answer = (case answer of (latency, reply) \<Rightarrow>
     if clientTimeout \<le> latency
     then (clientTimeout, None, Some (NetError ''context deadline exceeded (Client.Timeout exceeded while awaiting headers)''))
     else (max 0 latency,
       case reply of
         DoFailed m \<Rightarrow> (None, Some (NetError m))
       | ReadFailed m \<Rightarrow> (None, Some (NetError m))
       | BadJSON m \<Rightarrow> (None, Some (JSONError m))
       | Body tokenResp \<Rightarrow>
           if error tokenResp \<noteq> ''''
           then (if error tokenResp = ''authorization_pending'' \<or> error tokenResp = ''slow_down''
                 then (None, Some (Errorf (error tokenResp)))
                 else (None, Some (Errorf (''token error: '' @ error tokenResp))))
           else (Some tokenResp, None)))"

text \<open>
  What \<^verbatim>\<open>pollForToken\<close> hands back, with two observations of the run: the instant of
  the return and the instants at which \<^verbatim>\<open>checkToken\<close> was called.
\<close>

record poll_result =
  token :: "TokenResponse option"
  err :: "go_error option"
  finished :: time
  calls :: "time list"

text \<open>
  The \<^verbatim>\<open>for { select { case <-ticker.C: ... } }\<close> loop. \<open>now\<close> is the instant at which
  the loop waits for the next tick; the \<open>k\<close>-th call, \<open>k\<close> the number of calls so far, is
  answered by \<open>server k\<close>. A run that never returns is \<open>None\<close>.
\<close>

partial_function (option) pollLoop ::
  "token_server \<Rightarrow> time \<Rightarrow> ticker \<Rightarrow> time \<Rightarrow> time list \<Rightarrow> poll_result option" where
  "pollLoop server timeout tk now cs =
     (case receive tk now of (tk', tick) \<Rightarrow>
        if tick > timeout
        then Some \<lparr>token = None, err = Some (Errorf ''authorization timeout exceeded''),
                   finished = tick, calls = cs\<rparr>
        else (case checkToken (server (length cs)) of (d, tok, e) \<Rightarrow>
          (case e of
             Some er \<Rightarrow>
               if error_string er = ''authorization_pending'' \<or> error_string er = ''slow_down''
               then pollLoop server timeout tk' (tick + d) (cs @ [tick])
               else Some \<lparr>token = None, err = Some er, finished = tick + d, calls = cs @ [tick]\<rparr>
           | None \<Rightarrow>
               (case tok of
                  Some t \<Rightarrow> Some \<lparr>token = Some t, err = None, finished = tick + d, calls = cs @ [tick]\<rparr>
                | None \<Rightarrow> pollLoop server timeout tk' (tick + d) (cs @ [tick])))))"

declare pollLoop.simps [code]

text \<open>
  \<^verbatim>\<open>pollForToken\<close>, started at the instant \<open>now\<close>. The outer \<open>None\<close> is a run that
  never returns; \<open>Some None\<close> is the panic of \<^verbatim>\<open>time.NewTicker\<close>.
\<close>

definition pollForToken ::
  "token_server \<Rightarrow> time \<Rightarrow> int \<Rightarrow> int \<Rightarrow> poll_result option option" where
  "pollForToken server now interval expiresIn =
     (let pollInterval = seconds interval;
          timeout = now + seconds expiresIn
      in case NewTicker pollInterval now of
           None \<Rightarrow> Some None
         | Some tk \<Rightarrow> map_option Some (pollLoop server timeout tk now []))"

text \<open>
  Two notions of the specification, used to state its claims. A reply is retriable when
  it arrives within the client's time limit and its body carries the error
  \<open>authorization_pending\<close> or \<open>slow_down\<close>.
\<close>

definition retriable :: "duration \<times> token_reply \<Rightarrow> bool" where
  "retriable a = (case a of
      (latency, Body r) \<Rightarrow> latency < clientTimeout \<and>
         (error r = ''authorization_pending'' \<or> error r = ''slow_down'')
    | _ \<Rightarrow> False)"



section \<open>The configuration file\<close>

text \<open>\<^verbatim>\<open>config.Config\<close>, with its Go field names.\<close>

record Config =
  APIURL :: string
  AccessToken :: string
  RefreshToken :: string
  TokenExpiry :: string

definition defaultConfig :: Config where
  "defaultConfig = \<lparr>APIURL = ''https://test.armyknifelabs.com/api/v1'',
     AccessToken = [], RefreshToken = [], TokenExpiry = []\<rparr>"

text \<open>
  The text of the file is taken at the level of the JSON document it denotes:
  \<^verbatim>\<open>encoding/json\<close> writes a document and reads the same document back (strings are
  taken to be valid UTF-8). A member's value is a string, \<^verbatim>\<open>null\<close>, or anything else
  (a number, a boolean, an array, an object). Keys are compared exactly;
  \<^verbatim>\<open>encoding/json\<close> also accepts a key that differs in letter case, which no file
  written by \<^verbatim>\<open>Save\<close> has.
\<close>

datatype json_value = JString string | JNull | JOther

datatype document =
    Malformed string
  | TopNull
  | TopOther
  | TopObject "(string \<times> json_value) list"

text \<open>
  \<^verbatim>\<open>json.MarshalIndent(c, "", "  ")\<close>: the members in the order of the struct's
  fields; the three fields tagged \<^verbatim>\<open>omitempty\<close> are left out when empty.
\<close>

definition marshal_Config :: "Config \<Rightarrow> document" where
  "marshal_Config c = TopObject
     ([(''api_url'', JString (APIURL c))]
      @ (if AccessToken c = [] then [] else [(''access_token'', JString (AccessToken c))])
      @ (if RefreshToken c = [] then [] else [(''refresh_token'', JString (RefreshToken c))])
      @ (if TokenExpiry c = [] then [] else [(''token_expiry'', JString (TokenExpiry c))]))"

text \<open>
  \<^verbatim>\<open>json.Unmarshal(data, &cfg)\<close> member by member: a string is stored in the field
  its key names, \<^verbatim>\<open>null\<close> and unknown keys change nothing, and any other value for a
  known key is a type error, reported after the whole object has been read.
\<close>

definition known_key :: "string \<Rightarrow> bool" where
  "known_key k = (k = ''api_url'' \<or> k = ''access_token'' \<or> k = ''refresh_token''
     \<or> k = ''token_expiry'')"

definition set_field :: "string \<Rightarrow> string \<Rightarrow> Config \<Rightarrow> Config" where
  "set_field k v c =
     (if k = ''api_url'' then c\<lparr>APIURL := v\<rparr>
      else if k = ''access_token'' then c\<lparr>AccessToken := v\<rparr>
      else if k = ''refresh_token'' then c\<lparr>RefreshToken := v\<rparr>
      else if k = ''token_expiry'' then c\<lparr>TokenExpiry := v\<rparr>
      else c)"

fun unmarshal_members :: "(string \<times> json_value) list \<Rightarrow> Config \<times> bool \<Rightarrow> Config \<times> bool" where
  "unmarshal_members [] s = s"
| "unmarshal_members ((k, v) # kvs) (c, bad) =
     (case v of
        JString x \<Rightarrow> unmarshal_members kvs (set_field k x c, bad)
      | JNull \<Rightarrow> unmarshal_members kvs (c, bad)
      | JOther \<Rightarrow> unmarshal_members kvs (c, bad \<or> known_key k))"

definition unmarshal_Config :: "document \<Rightarrow> string + Config" where
  "unmarshal_Config doc =
     (let zero = \<lparr>APIURL = [], AccessToken = [], RefreshToken = [], TokenExpiry = []\<rparr>
      in case doc of
           Malformed m \<Rightarrow> Inl m
         | TopNull \<Rightarrow> Inr zero
         | TopOther \<Rightarrow> Inl ''json: cannot unmarshal into Go value of type config.Config''
         | TopObject kvs \<Rightarrow>
             (case unmarshal_members kvs (zero, False) of
                (c, bad) \<Rightarrow>
                  if bad then Inl ''json: cannot unmarshal into Go struct field of type string''
                  else Inr c))"

text \<open>
  The part of the machine the commands touch: whether the path of the file resolves
  (\<^verbatim>\<open>os.UserHomeDir\<close>, \<^verbatim>\<open>os.MkdirAll\<close>), whether \<^verbatim>\<open>os.WriteFile\<close> fails (the file
  is then taken to be as before), and the file.
\<close>

datatype path_fault = NoFault | NoHome string | NoDir string

datatype config_file = Absent | Unreadable string | Contents document

record disk =
  path_fault :: path_fault
  write_fault :: "string option"
  cfg_file :: config_file

definition GetConfigPath :: "disk \<Rightarrow> go_error option" where
  "GetConfigPath d = (case path_fault d of
       NoFault \<Rightarrow> None
     | NoHome m \<Rightarrow> Some (Errorf (''failed to get home directory: '' @ m))
     | NoDir m \<Rightarrow> Some (Errorf (''failed to create config directory: '' @ m)))"

text \<open>
  \<^verbatim>\<open>Load\<close>. With no file it returns the address of \<^verbatim>\<open>defaultConfig\<close>; a command
  loads once and the process ends with it, so the value stands for the object.
\<close>

definition Load :: "disk \<Rightarrow> go_error + Config" where
  "Load d = (case GetConfigPath d of
       Some e \<Rightarrow> Inl e
     | None \<Rightarrow>
         (case cfg_file d of
            Absent \<Rightarrow> Inr defaultConfig
          | Unreadable m \<Rightarrow> Inl (Errorf (''failed to read config file: '' @ m))
          | Contents doc \<Rightarrow>
              (case unmarshal_Config doc of
                 Inl m \<Rightarrow> Inl (Errorf (''failed to parse config file: '' @ m))
               | Inr cfg \<Rightarrow>
                   Inr (if APIURL cfg = [] then cfg\<lparr>APIURL := APIURL defaultConfig\<rparr>
                        else cfg))))"

text \<open>\<^verbatim>\<open>Save\<close>: the error it returns, if any, and the disk afterwards.\<close>

definition Save :: "Config \<Rightarrow> disk \<Rightarrow> go_error option \<times> disk" where
  "Save c d = (case GetConfigPath d of
       Some e \<Rightarrow> (Some e, d)
     | None \<Rightarrow>
         (case write_fault d of
            Some m \<Rightarrow> (Some (Errorf (''failed to write config file: '' @ m)), d)
          | None \<Rightarrow> (None, d\<lparr>cfg_file := Contents (marshal_Config c)\<rparr>)))"

definition IsAuthenticated :: "Config \<Rightarrow> bool" where
  "IsAuthenticated c = (AccessToken c \<noteq> [])"

section \<open>The device flow as a whole\<close>



text \<open>
  \<^verbatim>\<open>fmt.Sprintf("%d", n)\<close>, needed for the status in an error message and for the day
  count of \<^verbatim>\<open>formatExpiryDate\<close>.
\<close>

fun decimal :: "nat \<Rightarrow> string" where
  "decimal n = (if n < 10 then [''0123456789'' ! n]
     else decimal (n div 10) @ [''0123456789'' ! (n mod 10)])"

definition Sprintf_d :: "int \<Rightarrow> string" where
  "Sprintf_d n = (if n < 0 then CHR ''-'' # decimal (nat (- n)) else decimal (nat n))"



section \<open>The auth commands\<close>

text \<open>
  The envelope of \<^verbatim>\<open>/auth/pat/exchange\<close>, the fields under their JSON names
  (\<open>data.\<close> and \<open>error.\<close> flattened).
\<close>

record pat_result =
  success :: bool
  api_key :: string
  key_id :: string
  key_name :: string
  expires_at :: string
  user_id :: int
  username :: string
  error_code :: string
  error_message :: string

datatype pat_reply = PostFailed string | Undecodable string | Envelope pat_result

text \<open>A request of the exchange, and the network answering requests.\<close>

record http_post =
  url :: string
  github_pat :: string

type_synonym network = "http_post \<Rightarrow> pat_reply"

text \<open>
  \<^verbatim>\<open>exchangePATForAPIKey\<close>: the error returned, if any, the disk afterwards, and the
  requests sent. What it prints is left out.
\<close>

definition exchangePATForAPIKey ::
  "network \<Rightarrow> disk \<Rightarrow> Config \<Rightarrow> string \<Rightarrow> go_error option \<times> disk \<times> http_post list" where
  "exchangePATForAPIKey net d cfg githubPAT =
     (let req = \<lparr>url = APIURL cfg @ ''/auth/pat/exchange'', github_pat = githubPAT\<rparr>
      in case net req of
           PostFailed m \<Rightarrow> (Some (Errorf (''failed to contact API: '' @ m)), d, [req])
         | Undecodable m \<Rightarrow> (Some (Errorf (''failed to parse response: '' @ m)), d, [req])
         | Envelope result \<Rightarrow>
             if \<not> success result
             then (Some (Errorf (''PAT exchange failed: '' @ error_code result @ '' - ''
                                  @ error_message result)), d, [req])
             else (case Save (cfg\<lparr>AccessToken := api_key result,
                                    TokenExpiry := expires_at result\<rparr>) d of
                     (Some e, d') \<Rightarrow>
                       (Some (Errorf (''failed to save config: '' @ error_string e)), d', [req])
                   | (None, d') \<Rightarrow> (None, d', [req])))"

definition isValidAPIKey :: "string \<Rightarrow> bool" where
  "isValidAPIKey key = (length key > 3 \<and> take 3 key = ''ak_'')"

text \<open>
  What \<^verbatim>\<open>auth login\<close> reads: the global flag \<^verbatim>\<open>apiURL\<close>, the flags
  \<^verbatim>\<open>--github-pat\<close> and \<^verbatim>\<open>--api-key\<close>, the variable \<^verbatim>\<open>GITHUB_PAT\<close>, and the word
  that \<^verbatim>\<open>fmt.Scanln\<close> reads at the prompt (empty when it reads none).
\<close>

record login_input =
  flag_api_url :: string
  flag_github_pat :: string
  env_GITHUB_PAT :: string
  flag_api_key :: string
  stdin_word :: string

definition loginCmd ::
  "network \<Rightarrow> disk \<Rightarrow> login_input \<Rightarrow> go_error option \<times> disk \<times> http_post list" where
  "loginCmd net d inp =
     (case Load d of
        Inl e \<Rightarrow> (Some (Errorf (''failed to load config: '' @ error_string e)), d, [])
      | Inr loaded \<Rightarrow>
          (let cfg = (if flag_api_url inp \<noteq> [] then loaded\<lparr>APIURL := flag_api_url inp\<rparr>
                      else loaded);
               githubPAT = (if flag_github_pat inp = [] then env_GITHUB_PAT inp
                            else flag_github_pat inp)
           in if githubPAT \<noteq> [] then exchangePATForAPIKey net d cfg githubPAT
              else (let apiKey = (if flag_api_key inp = [] then stdin_word inp
                                  else flag_api_key inp)
                    in if apiKey = [] then (Some (Errorf ''API key is required''), d, [])
                       else if length apiKey < 10 \<or> \<not> isValidAPIKey apiKey
                       then (Some (Errorf ''invalid API key format''), d, [])
                       else (case Save (cfg\<lparr>AccessToken := apiKey\<rparr>) d of
                               (Some e, d') \<Rightarrow>
                                 (Some (Errorf (''failed to save config: '' @ error_string e)), d', [])
                             | (None, d') \<Rightarrow> (None, d', [])))))"

definition logoutCmd :: "disk \<Rightarrow> go_error option \<times> disk" where
  "logoutCmd d =
     (case Load d of
        Inl e \<Rightarrow> (Some (Errorf (''failed to load config: '' @ error_string e)), d)
      | Inr cfg \<Rightarrow>
          (case Save (cfg\<lparr>AccessToken := [], RefreshToken := [], TokenExpiry := []\<rparr>) d of
             (Some e, d') \<Rightarrow> (Some (Errorf (''failed to save config: '' @ error_string e)), d')
           | (None, d') \<Rightarrow> (None, d')))"

text \<open>
  \<^verbatim>\<open>Time.Sub\<close> saturates at the ends of \<^verbatim>\<open>int64\<close>.
\<close>

definition Sub :: "time \<Rightarrow> time \<Rightarrow> duration" where
  "Sub t u = max (- 9223372036854775808) (min 9223372036854775807 (t - u))"

text \<open>
  \<^verbatim>\<open>int(duration.Hours() / 24)\<close>: the conversion truncates towards zero. The source
  divides in \<^verbatim>\<open>float64\<close>; the quotient is taken exactly here, which gives the same
  number of days whenever the duration is a whole number of hours (further than that, only
  within a rounding error of a day boundary, for durations of months, can the two differ).
\<close>

definition days_of :: "duration \<Rightarrow> int" where
  "days_of d = (if d < 0 then - ((- d) div (24 * Hour)) else d div (24 * Hour))"

text \<open>
  \<^verbatim>\<open>formatExpiryDate\<close>. \<open>parse\<close> is \<^verbatim>\<open>time.Parse(time.RFC3339, _)\<close>, \<open>layout\<close> is
  \<^verbatim>\<open>Time.Format("January 2, 2006 at 3:04 PM MST")\<close>, \<open>now\<close> is \<^verbatim>\<open>time.Now()\<close>.
\<close>

definition formatExpiryDate ::
  "(string \<Rightarrow> time option) \<Rightarrow> (time \<Rightarrow> string) \<Rightarrow> time \<Rightarrow> string \<Rightarrow> string" where
  "formatExpiryDate parse layout now isoDate =
     (if isoDate = [] then ''Unknown''
      else (case parse isoDate of
              None \<Rightarrow> isoDate
            | Some expiryTime \<Rightarrow>
                (let formatted = layout expiryTime;
                     duration = Sub expiryTime now;
                     days = days_of duration
                 in if days < 0 then formatted @ '' (EXPIRED)''
                    else if days = 0 then formatted @ '' (expires today)''
                    else if days = 1 then formatted @ '' (1 day from now)''
                    else formatted @ '' ('' @ Sprintf_d days @ '' days from now)'')))"

section \<open>Properties of the poll loop\<close>

subsection \<open>The ticker and one call\<close>

lemma div_window:
  fixes x p :: int
  assumes "0 < p"
  shows "x div p * p \<le> x" and "x < x div p * p + p"
proof -
  have e: "x div p * p = x - x mod p"
    by (simp add: algebra_simps minus_mod_eq_mult_div)
  show "x div p * p \<le> x" using e pos_mod_sign [OF assms, of x] by simp
  show "x < x div p * p + p" using e pos_mod_bound [OF assms, of x] by simp
qed

lemma receive_idle:
  assumes "0 < period tk" and "\<not> full tk"
  shows "period (fst (receive tk now)) = period tk"
    and "\<not> full (fst (receive tk now))"
    and "snd (receive tk now) = max now (next_tick tk)"
    and "snd (receive tk now) < next_tick (fst (receive tk now))"
    and "next_tick (fst (receive tk now)) \<le> snd (receive tk now) + period tk"
    and "next_tick tk + period tk \<le> next_tick (fst (receive tk now))"
proof -
  let ?q = "(now - next_tick tk) div period tk"
  have w1: "?q * period tk \<le> now - next_tick tk" and w2: "now - next_tick tk < ?q * period tk + period tk"
    using div_window [OF assms(1), of "now - next_tick tk"] by simp_all
  have q0: "next_tick tk \<le> now \<Longrightarrow> 0 \<le> ?q * period tk"
    using assms(1) by (simp add: pos_imp_zdiv_nonneg_iff)
  show "period (fst (receive tk now)) = period tk"
    by (simp add: receive_def advance_def Let_def)
  show "\<not> full (fst (receive tk now))"
    using assms(2) by (simp add: receive_def advance_def Let_def)
  show "snd (receive tk now) = max now (next_tick tk)"
    using assms(2) by (simp add: receive_def advance_def Let_def)
  show "snd (receive tk now) < next_tick (fst (receive tk now))"
    using assms w2 by (simp add: receive_def advance_def Let_def algebra_simps)
  show "next_tick (fst (receive tk now)) \<le> snd (receive tk now) + period tk"
    using assms w1 by (simp add: receive_def advance_def Let_def algebra_simps)
  show "next_tick tk + period tk \<le> next_tick (fst (receive tk now))"
    using assms q0 by (simp add: receive_def advance_def Let_def algebra_simps)
qed


lemma checkToken_duration: "0 \<le> fst (checkToken a)" "fst (checkToken a) \<le> clientTimeout"
  by (cases a; simp add: checkToken_def clientTimeout_def Second_def)+

subsection \<open>One iteration of the loop\<close>

lemma checkToken_retriable:
  assumes "retriable a"
  shows "\<exists>m. snd (checkToken a) = (None, Some (Errorf m)) \<and> (m = ''authorization_pending'' \<or> m = ''slow_down'')"
  using assms
  by (cases a; cases "snd a") (auto simp: retriable_def checkToken_def)

lemma pollLoop_timeout_step:
  assumes "receive tk now = (tk', tick)" and "timeout < tick"
  shows "pollLoop server timeout tk now cs =
    Some \<lparr>token = None, err = Some (Errorf ''authorization timeout exceeded''),
          finished = tick, calls = cs\<rparr>"
  using assms by (subst pollLoop.simps) simp

lemma pollLoop_retry_step:
  assumes "receive tk now = (tk', tick)" and "\<not> timeout < tick"
    and "retriable (server (length cs))"
  shows "pollLoop server timeout tk now cs =
    pollLoop server timeout tk' (tick + fst (checkToken (server (length cs)))) (cs @ [tick])"
proof -
  obtain m where m: "snd (checkToken (server (length cs))) = (None, Some (Errorf m))"
      "m = ''authorization_pending'' \<or> m = ''slow_down''"
    using checkToken_retriable [OF assms(3)] by blast
  obtain d where d: "checkToken (server (length cs)) = (d, None, Some (Errorf m))"
    using m(1) by (cases "checkToken (server (length cs))") simp
  show ?thesis
    using assms(1,2) m(2) by (subst pollLoop.simps) (auto simp: d)
qed

lemma pollLoop_call_step:
  assumes "receive tk now = (tk', tick)" and "\<not> timeout < tick"
  shows "pollLoop server timeout tk now cs =
           pollLoop server timeout tk' (tick + fst (checkToken (server (length cs)))) (cs @ [tick])
       \<or> (\<exists>res. pollLoop server timeout tk now cs = Some res
             \<and> finished res = tick + fst (checkToken (server (length cs)))
             \<and> calls res = cs @ [tick]
             \<and> \<not> retriable (server (length cs)))"
proof (cases "retriable (server (length cs))")
  case True
  then show ?thesis using pollLoop_retry_step [of tk now tk' tick timeout server cs] assms by simp
next
  case False
  obtain d tok e where ct: "checkToken (server (length cs)) = (d, tok, e)"
    by (cases "checkToken (server (length cs))")
  show ?thesis
    using assms False by (subst (1 2) pollLoop.simps) (simp add: ct split: option.splits)
qed

subsection \<open>The loop returns\<close>

lemma pollLoop_returns:
  assumes "0 < period tk" and "\<not> full tk"
    and "r < next_tick tk" and "next_tick tk \<le> r + period tk"
    and "r \<le> now" and "now \<le> r + clientTimeout" and "r \<le> timeout"
    and "start + (int (length cs) + 1) * period tk \<le> next_tick tk"
    and "\<forall>j<length cs. start + (int j + 1) * period tk \<le> cs ! j"
    and "\<forall>c\<in>set cs. c \<le> timeout"
  shows "\<exists>res. pollLoop server timeout tk now cs = Some res
     \<and> finished res \<le> timeout + max (period tk) clientTimeout
     \<and> (\<forall>j<length (calls res). start + (int j + 1) * period tk \<le> calls res ! j)
     \<and> (\<forall>c\<in>set (calls res). c \<le> timeout)
     \<and> ((\<forall>k. retriable (server k)) \<longrightarrow>
           err res = Some (Errorf ''authorization timeout exceeded'') \<and> token res = None
           \<and> timeout < finished res)"
  using assms
proof (induction "nat (timeout - r)" arbitrary: tk now cs r rule: less_induct)
  case less
  obtain tk' tick where rc: "receive tk now = (tk', tick)"
    by (cases "receive tk now")
  have tk': "period tk' = period tk" "\<not> full tk'" "tick = max now (next_tick tk)"
      "tick < next_tick tk'" "next_tick tk' \<le> tick + period tk"
      "next_tick tk + period tk \<le> next_tick tk'"
    using receive_idle [OF less.prems(1,2), of now] by (simp_all add: rc)
  show ?case
  proof (cases "timeout < tick")
    case True
    have "tick \<le> timeout + max (period tk) clientTimeout"
      using tk'(3) less.prems(4,6,7) by (simp add: max_def split: if_splits)
    then show ?thesis
      using pollLoop_timeout_step [OF rc True, of server cs] True less.prems(9,10)
      by simp
  next
    case False
    let ?d = "fst (checkToken (server (length cs)))"
    have d: "0 \<le> ?d" "?d \<le> clientTimeout"
      by (rule checkToken_duration)+
    have pace: "start + (int (length cs) + 1) * period tk \<le> tick"
      using tk'(3) less.prems(8) by simp
    have cs': "\<forall>j<length (cs @ [tick]). start + (int j + 1) * period tk \<le> (cs @ [tick]) ! j"
      using less.prems(9) pace by (simp add: nth_append less_Suc_eq)
    have cs'': "\<forall>c\<in>set (cs @ [tick]). c \<le> timeout"
      using less.prems(10) False by simp
    from pollLoop_call_step [OF rc False, of server cs]
    show ?thesis
    proof
      assume eq: "pollLoop server timeout tk now cs =
           pollLoop server timeout tk' (tick + ?d) (cs @ [tick])"
      have m: "nat (timeout - tick) < nat (timeout - r)"
        using tk'(3) less.prems(3,5) False by (simp add: max_def split: if_splits)
      have nx: "start + (int (length (cs @ [tick])) + 1) * period tk' \<le> next_tick tk'"
        using tk'(1,6) less.prems(8) by (simp add: algebra_simps)
      have "\<exists>res. pollLoop server timeout tk' (tick + ?d) (cs @ [tick]) = Some res
         \<and> finished res \<le> timeout + max (period tk') clientTimeout
         \<and> (\<forall>j<length (calls res). start + (int j + 1) * period tk' \<le> calls res ! j)
         \<and> (\<forall>c\<in>set (calls res). c \<le> timeout)
         \<and> ((\<forall>k. retriable (server k)) \<longrightarrow>
           err res = Some (Errorf ''authorization timeout exceeded'') \<and> token res = None
           \<and> timeout < finished res)"
      proof (rule less.hyps [OF m])
        show "0 < period tk'" using tk'(1) less.prems(1) by simp
        show "\<not> full tk'" by (rule tk'(2))
        show "tick < next_tick tk'" by (rule tk'(4))
        show "next_tick tk' \<le> tick + period tk'" using tk'(1,5) by simp
        show "tick \<le> tick + ?d" using d(1) by simp
        show "tick + ?d \<le> tick + clientTimeout" using d(2) by simp
        show "tick \<le> timeout" using False by simp
        show "start + (int (length (cs @ [tick])) + 1) * period tk' \<le> next_tick tk'" by (rule nx)
        show "\<forall>j<length (cs @ [tick]). start + (int j + 1) * period tk' \<le> (cs @ [tick]) ! j"
          using cs' tk'(1) by simp
        show "\<forall>c\<in>set (cs @ [tick]). c \<le> timeout" by (rule cs'')
      qed
      then show ?thesis using eq tk'(1) by simp
    next
      assume "\<exists>res. pollLoop server timeout tk now cs = Some res
             \<and> finished res = tick + ?d \<and> calls res = cs @ [tick]
             \<and> \<not> retriable (server (length cs))"
      then obtain res where res: "pollLoop server timeout tk now cs = Some res"
          "finished res = tick + ?d" "calls res = cs @ [tick]"
          "\<not> retriable (server (length cs))"
        by blast
      have "finished res \<le> timeout + max (period tk) clientTimeout"
        using res(2) d(2) False by simp
      then show ?thesis
        using res cs' cs'' by auto
    qed
  qed
qed

subsection \<open>Iterations that go round again\<close>






lemma pollForToken_unfold:
  assumes "NewTicker (seconds interval) now = Some tk"
  shows "pollForToken server now interval expiresIn =
     map_option Some (pollLoop server (now + seconds expiresIn) tk now [])"
  using assms by (simp add: pollForToken_def Let_def)

subsection \<open>The claims about the poll loop\<close>

text \<open>
  Claim C1. The poll loop succeeds exactly when a reply has no \<open>error\<close> and a
  populated \<open>access_token\<close>; in particular a reply whose \<open>error\<close> and
  \<open>access_token\<close> are both empty must not be reported as success.
  The code does report it: with a poll interval of 5 s and a lifetime of 20 s, a first reply
  \<^verbatim>\<open>{}\<close> (every field empty) makes \<^verbatim>\<open>pollForToken\<close> return that empty
  token, without error, on the first tick. \<^verbatim>\<open>checkToken\<close> returns a non-nil
  response whenever \<open>error\<close> is empty, so the \<^verbatim>\<open>token != nil\<close> test of the loop
  never fails.
\<close>

theorem pollForToken_empty_reply_succeeds:
  "pollForToken
     (\<lambda>k. (0, Body \<lparr>access_token = [], refresh_token = [], token_type = [],
                          expires_in = 0, error = []\<rparr>))
     0 5 20 =
   Some (Some \<lparr>token = Some \<lparr>access_token = [], refresh_token = [], token_type = [],
                                  expires_in = 0, error = []\<rparr>,
                 err = None, finished = 5000000000, calls = [5000000000]\<rparr>)"
  by code_simp

lemma seconds_in_range:
  assumes "0 \<le> n" and "n \<le> 9223372036"
  shows "seconds n = n * Second"
proof -
  have "0 \<le> n * 1000000000 + 9223372036854775808"
    using assms(1) by simp
  moreover have "n * 1000000000 + 9223372036854775808 < 18446744073709551616"
    using assms(2) by simp
  ultimately have "(n * 1000000000 + 9223372036854775808) mod 18446744073709551616
      = n * 1000000000 + 9223372036854775808"
    by (rule mod_pos_pos_trivial)
  then show ?thesis
    by (simp add: seconds_def wrap64_def Second_def)
qed





text \<open>
  Claim C4 (termination bound). As stated it fails: a call of \<^verbatim>\<open>checkToken\<close> may take
  up to the client's 10 s, and the deadline is only tested when a tick is received. With
  an interval of 5 s and a lifetime of 22 s, retriable replies throughout, the first taking
  7 s and the fourth 9 s, the calls are made at 5 s, 12 s, 15 s and 20 s (two of them 3 s
  apart) and the timeout is declared at 29 s, after \<open>22 + 5\<close>.
\<close>

theorem pollForToken_bound_counterexample:
  "(\<forall>k. retriable (if k = 0 then 7000000000 else if k = 3 then 9000000000 else 0,
        Body \<lparr>access_token = [], refresh_token = [], token_type = [],
               expires_in = 0, error = ''slow_down''\<rparr>))
   \<and> (\<exists>res. pollForToken
         (\<lambda>k. (if k = 0 then 7000000000 else if k = 3 then 9000000000 else 0,
               Body \<lparr>access_token = [], refresh_token = [], token_type = [],
                      expires_in = 0, error = ''slow_down''\<rparr>))
         0 5 22 = Some (Some res)
       \<and> (22 + 5) * Second < finished res
       \<and> calls res ! 2 - calls res ! 1 < 5 * Second)"
proof -
  have "pollForToken
         (\<lambda>k. (if k = 0 then 7000000000 else if k = 3 then 9000000000 else 0,
               Body \<lparr>access_token = [], refresh_token = [], token_type = [],
                      expires_in = 0, error = ''slow_down''\<rparr>))
         0 5 22 =
       Some (Some \<lparr>token = None, err = Some (Errorf ''authorization timeout exceeded''),
                   finished = 29000000000,
                   calls = [5000000000, 12000000000, 15000000000, 20000000000]\<rparr>)"
    by code_simp
  then show ?thesis
    by (simp add: retriable_def clientTimeout_def Second_def)
qed

text \<open>
  Claim C4 as amended. For an interval \<open>i > 0\<close> and a lifetime \<open>e > 0\<close> (both small
  enough for \<^verbatim>\<open>time.Duration\<close>) and any replies, retriable for ever or not,
  \<^verbatim>\<open>pollForToken\<close> returns, at most \<open>e + max i 10\<close> seconds after its start. The
  \<open>j\<close>-th call (from 1) is made no earlier than \<open>j * i\<close> seconds after the start, and
  no call is made after the deadline \<open>now + e\<close>. When every reply is retriable, the
  result is the timeout error, declared at the first tick received after the deadline.
\<close>

theorem pollForToken_returns_in_time:
  assumes "0 < interval" and "interval \<le> 9223372036"
    and "0 < expiresIn" and "expiresIn \<le> 9223372036"
  shows "\<exists>res. pollForToken server now interval expiresIn = Some (Some res)
     \<and> finished res \<le> now + expiresIn * Second + max (interval * Second) clientTimeout
     \<and> (\<forall>j<length (calls res). now + (int j + 1) * (interval * Second) \<le> calls res ! j)
     \<and> (\<forall>c\<in>set (calls res). c \<le> now + expiresIn * Second)
     \<and> ((\<forall>k. retriable (server k)) \<longrightarrow>
           err res = Some (Errorf ''authorization timeout exceeded'') \<and> token res = None
           \<and> now + expiresIn * Second < finished res)"
proof -
  let ?p = "interval * Second"
  let ?tk = "\<lparr>period = ?p, next_tick = now + ?p, full = False\<rparr>"
  have si: "seconds interval = ?p"
    using assms(1,2) by (simp add: seconds_in_range)
  have se: "seconds expiresIn = expiresIn * Second"
    using assms(3,4) by (simp add: seconds_in_range)
  have p: "0 < ?p" using assms(1) by (simp add: Second_def)
  have e: "0 \<le> expiresIn * Second" using assms(3) by (simp add: Second_def)
  have nt: "NewTicker (seconds interval) now = Some ?tk"
    using p by (simp add: NewTicker_def si)
  have "\<exists>res. pollLoop server (now + expiresIn * Second) ?tk now [] = Some res
     \<and> finished res \<le> now + expiresIn * Second + max (period ?tk) clientTimeout
     \<and> (\<forall>j<length (calls res). now + (int j + 1) * period ?tk \<le> calls res ! j)
     \<and> (\<forall>c\<in>set (calls res). c \<le> now + expiresIn * Second)
     \<and> ((\<forall>k. retriable (server k)) \<longrightarrow>
           err res = Some (Errorf ''authorization timeout exceeded'') \<and> token res = None
           \<and> now + expiresIn * Second < finished res)"
  proof (rule pollLoop_returns [where r = now])
    show "0 < period ?tk" using p by simp
    show "\<not> full ?tk" by simp
    show "now < next_tick ?tk" using p by simp
    show "next_tick ?tk \<le> now + period ?tk" by simp
    show "now \<le> now" by simp
    show "now \<le> now + clientTimeout" by (simp add: clientTimeout_def Second_def)
    show "now \<le> now + expiresIn * Second" using e by simp
    show "now + (int (length ([]::time list)) + 1) * period ?tk \<le> next_tick ?tk" by simp
    show "\<forall>j<length ([]::time list). now + (int j + 1) * period ?tk \<le> [] ! j" by simp
    show "\<forall>c\<in>set ([]::time list). c \<le> now + expiresIn * Second" by simp
  qed
  then show ?thesis
    by (simp add: pollForToken_unfold [OF nt] se)
qed

theorem pollForToken_returns_in_time_witness:
  "\<exists>res. pollForToken
       (\<lambda>k. (0, Body \<lparr>access_token = [], refresh_token = [], token_type = [],
                        expires_in = 0, error = ''authorization_pending''\<rparr>))
       0 5 10 = Some (Some res)
     \<and> finished res \<le> 20000000000
     \<and> err res = Some (Errorf ''authorization timeout exceeded'')
     \<and> 10000000000 < finished res"
proof -
  let ?server = "\<lambda>k::nat. (0::int, Body \<lparr>access_token = [], refresh_token = [],
      token_type = [], expires_in = 0, error = ''authorization_pending''\<rparr>)"
  have r: "\<forall>k. retriable (?server k)"
    by (simp add: retriable_def clientTimeout_def Second_def)
  show ?thesis
    using pollForToken_returns_in_time [of 5 10 ?server 0] r
    by (auto simp: clientTimeout_def Second_def)
qed

section \<open>Properties of the token store and the commands\<close>

subsection \<open>Writing and reading the file\<close>

lemma unmarshal_marshal: "unmarshal_Config (marshal_Config c) = Inr c"
  by (cases c) (simp add: unmarshal_Config_def marshal_Config_def set_field_def)

lemma Save_ok:
  assumes "path_fault d = NoFault" and "write_fault d = None"
  shows "Save c d = (None, d\<lparr>cfg_file := Contents (marshal_Config c)\<rparr>)"
  using assms by (simp add: Save_def GetConfigPath_def)

lemma Load_saved:
  assumes "path_fault d = NoFault"
  shows "Load (d\<lparr>cfg_file := Contents (marshal_Config c)\<rparr>) =
     Inr (if APIURL c = [] then c\<lparr>APIURL := APIURL defaultConfig\<rparr> else c)"
  using assms by (simp add: Load_def GetConfigPath_def unmarshal_marshal)

lemma Load_ok_path:
  assumes "Load d = Inr c"
  shows "path_fault d = NoFault"
  using assms by (cases "path_fault d") (simp_all add: Load_def GetConfigPath_def)

lemma Load_APIURL:
  assumes "Load d = Inr c"
  shows "APIURL c \<noteq> []"
  using assms
  by (auto simp: Load_def GetConfigPath_def defaultConfig_def
      split: path_fault.splits config_file.splits sum.splits if_splits)

lemma Save_fails_unchanged:
  assumes "Save c d = (Some e, d')"
  shows "d' = d"
  using assms by (auto simp: Save_def split: option.splits)




subsection \<open>Login\<close>

lemma loginCmd_api_key_path:
  assumes "Load d = Inr loaded"
    and "flag_github_pat inp = []" and "env_GITHUB_PAT inp = []"
    and "key = (if flag_api_key inp = [] then stdin_word inp else flag_api_key inp)"
    and "key \<noteq> []"
  shows "loginCmd net d inp =
     (if length key < 10 \<or> \<not> isValidAPIKey key
      then (Some (Errorf ''invalid API key format''), d, [])
      else (case Save ((if flag_api_url inp \<noteq> [] then loaded\<lparr>APIURL := flag_api_url inp\<rparr>
                        else loaded)\<lparr>AccessToken := key\<rparr>) d of
              (Some e, d') \<Rightarrow>
                (Some (Errorf (''failed to save config: '' @ error_string e)), d', [])
            | (None, d') \<Rightarrow> (None, d', [])))"
  using assms by (simp add: loginCmd_def Let_def)

lemma valid_key_iff:
  "(length key < 10 \<or> \<not> isValidAPIKey key) = (\<not> (10 \<le> length key \<and> take 3 key = ''ak_''))"
  by (auto simp: isValidAPIKey_def)

text \<open>
  Claim C6 (overwritten as a whole). The code breaks it on the API-key path: the command
  loads the stored record, replaces \<open>access_token\<close> alone and saves, so the
  \<open>refresh_token\<close> and the \<open>token_expiry\<close> of the previous login are read back after
  the new one. (The PAT path replaces \<open>access_token\<close> and \<open>token_expiry\<close> and keeps the
  old \<open>refresh_token\<close>; the device flow and logout write all three.)
\<close>

theorem loginCmd_api_key_keeps_previous_fields:
  assumes "Load d = Inr old" and "write_fault d = None"
    and "flag_github_pat inp = []" and "env_GITHUB_PAT inp = []"
    and "flag_api_key inp = key" and "10 \<le> length key" and "take 3 key = ''ak_''"
  shows "\<exists>d' c. loginCmd net d inp = (None, d', []) \<and> Load d' = Inr c
     \<and> AccessToken c = key
     \<and> RefreshToken c = RefreshToken old \<and> TokenExpiry c = TokenExpiry old"
proof -
  let ?cfg = "(if flag_api_url inp \<noteq> [] then old\<lparr>APIURL := flag_api_url inp\<rparr> else old)
     \<lparr>AccessToken := key\<rparr>"
  have k: "key \<noteq> []" using assms(6) by auto
  have p: "path_fault d = NoFault" by (rule Load_ok_path [OF assms(1)])
  have kk: "key = (if flag_api_key inp = [] then stdin_word inp else flag_api_key inp)"
    using assms(5) k by simp
  have v: "\<not> (length key < 10 \<or> \<not> isValidAPIKey key)"
    using assms(6,7) by (simp only: valid_key_iff) simp
  have l: "loginCmd net d inp = (None, d\<lparr>cfg_file := Contents (marshal_Config ?cfg)\<rparr>, [])"
    using loginCmd_api_key_path [OF assms(1,3,4) kk k, of net] v
    by (simp add: Save_ok [OF p assms(2)])
  have u: "APIURL ?cfg \<noteq> []" using Load_APIURL [OF assms(1)] by simp
  have "Load (d\<lparr>cfg_file := Contents (marshal_Config ?cfg)\<rparr>) = Inr ?cfg"
    using Load_saved [OF p, of ?cfg] u by simp
  then show ?thesis using l by simp
qed

theorem loginCmd_api_key_keeps_previous_fields_witness:
  "\<exists>d' c. loginCmd (\<lambda>req. PostFailed ''offline'')
       \<lparr>path_fault = NoFault, write_fault = None,
          cfg_file = Contents (TopObject
            [(''api_url'', JString ''https://test.armyknifelabs.com/api/v1''),
             (''access_token'', JString ''tok-A''),
             (''refresh_token'', JString ''ref-A''),
             (''token_expiry'', JString ''2020-01-01T00:00:00Z'')])\<rparr>
       \<lparr>flag_api_url = [], flag_github_pat = [], env_GITHUB_PAT = [],
          flag_api_key = ''ak_1234567'', stdin_word = []\<rparr> = (None, d', [])
     \<and> Load d' = Inr c \<and> AccessToken c = ''ak_1234567''
     \<and> RefreshToken c = ''ref-A'' \<and> TokenExpiry c = ''2020-01-01T00:00:00Z''"
proof -
  let ?d = "\<lparr>path_fault = NoFault, write_fault = None,
          cfg_file = Contents (TopObject
            [(''api_url'', JString ''https://test.armyknifelabs.com/api/v1''),
             (''access_token'', JString ''tok-A''),
             (''refresh_token'', JString ''ref-A''),
             (''token_expiry'', JString ''2020-01-01T00:00:00Z'')])\<rparr>"
  let ?old = "\<lparr>APIURL = ''https://test.armyknifelabs.com/api/v1'', AccessToken = ''tok-A'',
     RefreshToken = ''ref-A'', TokenExpiry = ''2020-01-01T00:00:00Z''\<rparr>"
  let ?inp = "\<lparr>flag_api_url = [], flag_github_pat = [], env_GITHUB_PAT = [],
          flag_api_key = ''ak_1234567'', stdin_word = []\<rparr>"
  have h1: "Load ?d = Inr ?old"
    by (simp add: Load_def GetConfigPath_def unmarshal_Config_def set_field_def)
  have h2: "write_fault ?d = None" by simp
  have h3: "flag_github_pat ?inp = []" "env_GITHUB_PAT ?inp = []" by simp_all
  have h4: "flag_api_key ?inp = ''ak_1234567''" by simp
  have h5: "10 \<le> length ''ak_1234567''" "take 3 ''ak_1234567'' = ''ak_''" by simp_all
  show ?thesis
    using loginCmd_api_key_keeps_previous_fields [OF h1 h2 h3 h4 h5] by simp
qed

text \<open>
  Claim C10 (format check on the API-key path). With no PAT given and a key supplied (by
  the flag, or else at the prompt), the command returns the error
  \<open>invalid API key format\<close>, the disk as it was and no request sent, unless the key has
  at least 10 characters (bytes, as \<^verbatim>\<open>len\<close> counts them) and starts with
  \<open>ak_\<close>; and for a key that has both, that error is not returned.
\<close>

theorem loginCmd_rejects_malformed_key:
  assumes "Load d = Inr loaded"
    and "flag_github_pat inp = []" and "env_GITHUB_PAT inp = []"
    and "key = (if flag_api_key inp = [] then stdin_word inp else flag_api_key inp)"
    and "key \<noteq> []"
  shows "(\<not> (10 \<le> length key \<and> take 3 key = ''ak_'') \<longrightarrow>
            loginCmd net d inp = (Some (Errorf ''invalid API key format''), d, []))
     \<and> (10 \<le> length key \<and> take 3 key = ''ak_'' \<longrightarrow>
            fst (loginCmd net d inp) \<noteq> Some (Errorf ''invalid API key format''))"
  using loginCmd_api_key_path [OF assms, of net]
  by (auto simp: valid_key_iff split: prod.splits option.splits)

theorem loginCmd_rejects_malformed_key_witness:
  "loginCmd (\<lambda>req. PostFailed ''offline'')
       \<lparr>path_fault = NoFault, write_fault = None, cfg_file = Absent\<rparr>
       \<lparr>flag_api_url = [], flag_github_pat = [], env_GITHUB_PAT = [],
          flag_api_key = ''ak_123456'', stdin_word = []\<rparr>
     = (Some (Errorf ''invalid API key format''),
        \<lparr>path_fault = NoFault, write_fault = None, cfg_file = Absent\<rparr>, [])
   \<and> fst (loginCmd (\<lambda>req. PostFailed ''offline'')
       \<lparr>path_fault = NoFault, write_fault = None, cfg_file = Absent\<rparr>
       \<lparr>flag_api_url = [], flag_github_pat = [], env_GITHUB_PAT = [],
          flag_api_key = ''ak_1234567'', stdin_word = []\<rparr>)
     \<noteq> Some (Errorf ''invalid API key format'')"
proof -
  let ?d = "\<lparr>path_fault = NoFault, write_fault = None, cfg_file = Absent\<rparr>"
  let ?short = "\<lparr>flag_api_url = [], flag_github_pat = [], env_GITHUB_PAT = [],
          flag_api_key = ''ak_123456'', stdin_word = []\<rparr>"
  let ?good = "\<lparr>flag_api_url = [], flag_github_pat = [], env_GITHUB_PAT = [],
          flag_api_key = ''ak_1234567'', stdin_word = []\<rparr>"
  have h1: "Load ?d = Inr defaultConfig" by (simp add: Load_def GetConfigPath_def)
  have a: "loginCmd (\<lambda>req. PostFailed ''offline'') ?d ?short
      = (Some (Errorf ''invalid API key format''), ?d, [])"
    using loginCmd_rejects_malformed_key [OF h1, of ?short "''ak_123456''"] by simp
  have b: "fst (loginCmd (\<lambda>req. PostFailed ''offline'') ?d ?good)
      \<noteq> Some (Errorf ''invalid API key format'')"
    using loginCmd_rejects_malformed_key [OF h1, of ?good "''ak_1234567''"] by simp
  show ?thesis using a b by simp
qed

lemma exchangePAT_requests:
  "snd (snd (exchangePATForAPIKey net d cfg pat)) =
     [\<lparr>url = APIURL cfg @ ''/auth/pat/exchange'', github_pat = pat\<rparr>]"
proof -
  let ?req = "\<lparr>url = APIURL cfg @ ''/auth/pat/exchange'', github_pat = pat\<rparr>"
  show ?thesis
  proof (cases "net ?req")
    case (PostFailed m)
    then show ?thesis by (simp add: exchangePATForAPIKey_def Let_def)
  next
    case (Undecodable m)
    then show ?thesis by (simp add: exchangePATForAPIKey_def Let_def)
  next
    case (Envelope result)
    obtain e d' where s: "Save (cfg\<lparr>AccessToken := api_key result,
        TokenExpiry := expires_at result\<rparr>) d = (e, d')"
      by (cases "Save (cfg\<lparr>AccessToken := api_key result, TokenExpiry := expires_at result\<rparr>) d")
    show ?thesis
      using Envelope s by (cases e) (simp_all add: exchangePATForAPIKey_def Let_def)
  qed
qed

lemma loginCmd_pat_path:
  assumes "Load d = Inr loaded"
    and "pat = (if flag_github_pat inp = [] then env_GITHUB_PAT inp else flag_github_pat inp)"
    and "pat \<noteq> []"
  shows "loginCmd net d inp =
     exchangePATForAPIKey net d
       (if flag_api_url inp \<noteq> [] then loaded\<lparr>APIURL := flag_api_url inp\<rparr> else loaded) pat"
  using assms by (simp add: loginCmd_def Let_def)

lemma loginCmd_no_key:
  assumes "Load d = Inr loaded"
    and "flag_github_pat inp = []" and "env_GITHUB_PAT inp = []"
    and "flag_api_key inp = []" and "stdin_word inp = []"
  shows "loginCmd net d inp = (Some (Errorf ''API key is required''), d, [])"
  using assms by (simp add: loginCmd_def Let_def)

lemma loginCmd_api_key_requests:
  assumes "Load d = Inr loaded"
    and "flag_github_pat inp = []" and "env_GITHUB_PAT inp = []"
  shows "snd (snd (loginCmd net d inp)) = []"
proof -
  let ?key = "if flag_api_key inp = [] then stdin_word inp else flag_api_key inp"
  let ?cfg = "(if flag_api_url inp \<noteq> [] then loaded\<lparr>APIURL := flag_api_url inp\<rparr>
     else loaded)\<lparr>AccessToken := ?key\<rparr>"
  show ?thesis
  proof (cases "?key = []")
    case True
    then have "flag_api_key inp = []" "stdin_word inp = []"
      by (simp_all split: if_splits)
    then show ?thesis
      using loginCmd_no_key [OF assms, of net] by simp
  next
    case False
    obtain e d' where s: "Save ?cfg d = (e, d')"
      by (cases "Save ?cfg d")
    have l: "loginCmd net d inp =
     (if length ?key < 10 \<or> \<not> isValidAPIKey ?key
      then (Some (Errorf ''invalid API key format''), d, [])
      else (case Save ?cfg d of
              (Some e, d') \<Rightarrow>
                (Some (Errorf (''failed to save config: '' @ error_string e)), d', [])
            | (None, d') \<Rightarrow> (None, d', [])))"
      by (rule loginCmd_api_key_path [OF assms refl False])
    show ?thesis
    proof (cases "length ?key < 10 \<or> \<not> isValidAPIKey ?key")
      case True
      then show ?thesis by (simp only: l if_True snd_conv)
    next
      case False
      then have "loginCmd net d inp = (case (e, d') of
              (Some e, d') \<Rightarrow>
                (Some (Errorf (''failed to save config: '' @ error_string e)), d', [])
            | (None, d') \<Rightarrow> (None, d', []))"
        by (simp only: l if_False s)
      then show ?thesis by (cases e) simp_all
    qed
  qed
qed

lemma loginCmd_load_failed_requests:
  assumes "Load d = Inl e"
  shows "snd (snd (loginCmd net d inp)) = []"
  using assms by (simp add: loginCmd_def)

lemma loginCmd_pat_requests:
  assumes "Load d = Inr loaded"
    and "pat = (if flag_github_pat inp = [] then env_GITHUB_PAT inp else flag_github_pat inp)"
    and "pat \<noteq> []"
  shows "snd (snd (loginCmd net d inp)) =
     [\<lparr>url = APIURL (if flag_api_url inp \<noteq> [] then loaded\<lparr>APIURL := flag_api_url inp\<rparr>
                       else loaded) @ ''/auth/pat/exchange'',
       github_pat = pat\<rparr>]"
  by (simp only: loginCmd_pat_path [OF assms] exchangePAT_requests)

text \<open>
  The PAT path writes the new key and its expiry and leaves the stored \<open>refresh_token\<close>.
\<close>

lemma loginCmd_pat_keeps_refresh_token:
  assumes "Load d = Inr old" and "write_fault d = None"
    and "pat = (if flag_github_pat inp = [] then env_GITHUB_PAT inp else flag_github_pat inp)"
    and "pat \<noteq> []" and "flag_api_url inp = []"
    and "net \<lparr>url = APIURL old @ ''/auth/pat/exchange'', github_pat = pat\<rparr> = Envelope result"
    and "success result"
  shows "\<exists>d' c. fst (loginCmd net d inp) = None \<and> fst (snd (loginCmd net d inp)) = d'
     \<and> Load d' = Inr c
     \<and> AccessToken c = api_key result \<and> TokenExpiry c = expires_at result
     \<and> RefreshToken c = RefreshToken old"
proof -
  let ?cfg = "old\<lparr>AccessToken := api_key result, TokenExpiry := expires_at result\<rparr>"
  have p: "path_fault d = NoFault" by (rule Load_ok_path [OF assms(1)])
  have "loginCmd net d inp = exchangePATForAPIKey net d old pat"
    using loginCmd_pat_path [OF assms(1,3,4), of net] assms(5) by simp
  also have "\<dots> = (None, d\<lparr>cfg_file := Contents (marshal_Config ?cfg)\<rparr>,
      [\<lparr>url = APIURL old @ ''/auth/pat/exchange'', github_pat = pat\<rparr>])"
    using assms(6,7) by (simp add: exchangePATForAPIKey_def Let_def Save_ok [OF p assms(2)])
  finally have l: "loginCmd net d inp = (None, d\<lparr>cfg_file := Contents (marshal_Config ?cfg)\<rparr>,
      [\<lparr>url = APIURL old @ ''/auth/pat/exchange'', github_pat = pat\<rparr>])" .
  have u: "APIURL ?cfg \<noteq> []" using Load_APIURL [OF assms(1)] by simp
  have "Load (d\<lparr>cfg_file := Contents (marshal_Config ?cfg)\<rparr>) = Inr ?cfg"
    using Load_saved [OF p, of ?cfg] u by simp
  then show ?thesis by (simp add: l)
qed

text \<open>
  Claim C8 (empty PAT). As stated it fails: \<^verbatim>\<open>exchangePATForAPIKey\<close> has no check of
  its own and, called with the empty string, posts it.
\<close>

theorem exchangePAT_empty_posts_counterexample:
  "\<forall>net d cfg. snd (snd (exchangePATForAPIKey net d cfg [])) =
     [\<lparr>url = APIURL cfg @ ''/auth/pat/exchange'', github_pat = []\<rparr>]"
  by (simp only: exchangePAT_requests) simp

text \<open>
  Claim C8 as amended. The guard is the caller's: \<^verbatim>\<open>auth login\<close> calls the exchange
  only with a non-empty PAT (from the flag, or else from \<^verbatim>\<open>GITHUB_PAT\<close>). So no request
  of the command carries an empty PAT, and with neither source set the command sends no
  request at all.
\<close>

theorem loginCmd_never_posts_empty_pat:
  "(\<forall>req\<in>set (snd (snd (loginCmd net d inp))). github_pat req \<noteq> [])
   \<and> (flag_github_pat inp = [] \<and> env_GITHUB_PAT inp = [] \<longrightarrow>
        snd (snd (loginCmd net d inp)) = [])"
proof (cases "Load d")
  case (Inl e)
  have "snd (snd (loginCmd net d inp)) = []"
    by (rule loginCmd_load_failed_requests [OF Inl])
  then show ?thesis by simp
next
  case (Inr loaded)
  let ?pat = "if flag_github_pat inp = [] then env_GITHUB_PAT inp else flag_github_pat inp"
  show ?thesis
  proof (cases "?pat = []")
    case True
    then have "flag_github_pat inp = []" "env_GITHUB_PAT inp = []"
      by (simp_all split: if_splits)
    then have "snd (snd (loginCmd net d inp)) = []"
      by (rule loginCmd_api_key_requests [OF Inr])
    then show ?thesis by simp
  next
    case False
    have r: "snd (snd (loginCmd net d inp)) =
     [\<lparr>url = APIURL (if flag_api_url inp \<noteq> [] then loaded\<lparr>APIURL := flag_api_url inp\<rparr>
                       else loaded) @ ''/auth/pat/exchange'',
       github_pat = ?pat\<rparr>]"
      by (rule loginCmd_pat_requests [OF Inr refl False])
    have a: "\<forall>req\<in>set (snd (snd (loginCmd net d inp))). github_pat req \<noteq> []"
      using False by (simp only: r) simp
    have b: "\<not> (flag_github_pat inp = [] \<and> env_GITHUB_PAT inp = [])"
      using False by (simp split: if_splits)
    show ?thesis using a b by blast
  qed
qed

theorem loginCmd_never_posts_empty_pat_witness:
  "snd (snd (loginCmd (\<lambda>req. Envelope \<lparr>success = True, api_key = ''ak_from_exchange'',
         key_id = [], key_name = [], expires_at = [], user_id = 1, username = ''u'',
         error_code = [], error_message = []\<rparr>)
       \<lparr>path_fault = NoFault, write_fault = None, cfg_file = Absent\<rparr>
       \<lparr>flag_api_url = [], flag_github_pat = [], env_GITHUB_PAT = [],
          flag_api_key = [], stdin_word = []\<rparr>)) = []"
  using loginCmd_never_posts_empty_pat
    [of "\<lambda>req. Envelope \<lparr>success = True, api_key = ''ak_from_exchange'',
         key_id = [], key_name = [], expires_at = [], user_id = 1, username = ''u'',
         error_code = [], error_message = []\<rparr>"
        "\<lparr>path_fault = NoFault, write_fault = None, cfg_file = Absent\<rparr>"
        "\<lparr>flag_api_url = [], flag_github_pat = [], env_GITHUB_PAT = [],
          flag_api_key = [], stdin_word = []\<rparr>"]
  by simp

subsection \<open>Logout\<close>

lemma logoutCmd_ok:
  assumes "Load d = Inr cfg" and "write_fault d = None"
  shows "logoutCmd d = (None, d\<lparr>cfg_file := Contents (marshal_Config
     (cfg\<lparr>AccessToken := [], RefreshToken := [], TokenExpiry := []\<rparr>))\<rparr>)"
  using assms Save_ok [OF Load_ok_path [OF assms(1)] assms(2)]
  by (simp add: logoutCmd_def)

lemma logoutCmd_failed:
  assumes "fst (logoutCmd d) \<noteq> None"
  shows "snd (logoutCmd d) = d"
  using assms
  by (auto simp: logoutCmd_def split: sum.splits prod.splits option.splits
      dest: Save_fails_unchanged)

lemma logoutCmd_cases:
  "(\<exists>e. logoutCmd d = (Some e, d))
   \<or> (\<exists>cfg. Load d = Inr cfg \<and> write_fault d = None)"
proof (cases "Load d")
  case (Inl e)
  then show ?thesis by (simp add: logoutCmd_def)
next
  case (Inr cfg)
  show ?thesis
  proof (cases "write_fault d")
    case None
    then show ?thesis using Inr by simp
  next
    case (Some m)
    then show ?thesis
      using Inr Load_ok_path [OF Inr] by (simp add: logoutCmd_def Save_def GetConfigPath_def)
  qed
qed

lemma logoutCmd_twice: "logoutCmd (snd (logoutCmd d)) = logoutCmd d"
proof -
  from logoutCmd_cases [of d] show ?thesis
  proof
    assume "\<exists>e. logoutCmd d = (Some e, d)"
    then show ?thesis by auto
  next
    assume "\<exists>cfg. Load d = Inr cfg \<and> write_fault d = None"
    then obtain cfg where l: "Load d = Inr cfg" and w: "write_fault d = None" by blast
    let ?c = "cfg\<lparr>AccessToken := [], RefreshToken := [], TokenExpiry := []\<rparr>"
    let ?d' = "d\<lparr>cfg_file := Contents (marshal_Config ?c)\<rparr>"
    have p: "path_fault d = NoFault" by (rule Load_ok_path [OF l])
    have u: "APIURL ?c \<noteq> []" using Load_APIURL [OF l] by simp
    have l': "Load ?d' = Inr ?c" using Load_saved [OF p, of ?c] u by simp
    have w': "write_fault ?d' = None" using w by simp
    have "logoutCmd ?d' = (None, ?d')"
      using logoutCmd_ok [OF l' w'] by simp
    then show ?thesis using logoutCmd_ok [OF l w] by simp
  qed
qed

text \<open>
  Claim C7 (logout). \<^verbatim>\<open>auth logout\<close> run twice ends as run once, result and disk
  alike; and when it succeeds, the record read back has \<open>access_token\<close>,
  \<open>refresh_token\<close> and \<open>token_expiry\<close> empty and is not authenticated.
\<close>

theorem logoutCmd_clears_and_is_idempotent:
  "logoutCmd (snd (logoutCmd d)) = logoutCmd d
   \<and> (fst (logoutCmd d) = None \<longrightarrow>
        (\<exists>c. Load (snd (logoutCmd d)) = Inr c
           \<and> AccessToken c = [] \<and> RefreshToken c = [] \<and> TokenExpiry c = []
           \<and> \<not> IsAuthenticated c))"
proof (intro conjI impI)
  show "logoutCmd (snd (logoutCmd d)) = logoutCmd d" by (rule logoutCmd_twice)
next
  assume ok: "fst (logoutCmd d) = None"
  from logoutCmd_cases [of d] obtain cfg
    where l: "Load d = Inr cfg" and w: "write_fault d = None"
    using ok by auto
  let ?c = "cfg\<lparr>AccessToken := [], RefreshToken := [], TokenExpiry := []\<rparr>"
  have p: "path_fault d = NoFault" by (rule Load_ok_path [OF l])
  have u: "APIURL ?c \<noteq> []" using Load_APIURL [OF l] by simp
  have "Load (d\<lparr>cfg_file := Contents (marshal_Config ?c)\<rparr>) = Inr ?c"
    using Load_saved [OF p, of ?c] u by simp
  then show "\<exists>c. Load (snd (logoutCmd d)) = Inr c
           \<and> AccessToken c = [] \<and> RefreshToken c = [] \<and> TokenExpiry c = []
           \<and> \<not> IsAuthenticated c"
    using logoutCmd_ok [OF l w] by (simp add: IsAuthenticated_def)
qed

theorem logoutCmd_clears_and_is_idempotent_witness:
  "fst (logoutCmd \<lparr>path_fault = NoFault, write_fault = None,
          cfg_file = Contents (TopObject
            [(''api_url'', JString ''https://test.armyknifelabs.com/api/v1''),
             (''access_token'', JString ''tok-A''),
             (''refresh_token'', JString ''ref-A''),
             (''token_expiry'', JString ''2020-01-01T00:00:00Z'')])\<rparr>) = None
   \<and> (\<exists>c. Load (snd (logoutCmd \<lparr>path_fault = NoFault, write_fault = None,
          cfg_file = Contents (TopObject
            [(''api_url'', JString ''https://test.armyknifelabs.com/api/v1''),
             (''access_token'', JString ''tok-A''),
             (''refresh_token'', JString ''ref-A''),
             (''token_expiry'', JString ''2020-01-01T00:00:00Z'')])\<rparr>)) = Inr c
         \<and> AccessToken c = [] \<and> RefreshToken c = [] \<and> TokenExpiry c = []
         \<and> \<not> IsAuthenticated c)"
proof -
  let ?d = "\<lparr>path_fault = NoFault, write_fault = None,
          cfg_file = Contents (TopObject
            [(''api_url'', JString ''https://test.armyknifelabs.com/api/v1''),
             (''access_token'', JString ''tok-A''),
             (''refresh_token'', JString ''ref-A''),
             (''token_expiry'', JString ''2020-01-01T00:00:00Z'')])\<rparr>"
  have ok: "fst (logoutCmd ?d) = None"
    by (simp add: logoutCmd_def Load_def Save_def GetConfigPath_def unmarshal_Config_def
        set_field_def)
  show ?thesis
    using logoutCmd_clears_and_is_idempotent [of ?d] ok by blast
qed

subsection \<open>The expiry shown by the status command\<close>

lemma days_of_recent_past:
  assumes "d < 0" and "- (24 * Hour) < d"
  shows "days_of d = 0"
  using assms by (simp add: days_of_def Hour_def Second_def)

lemma formatExpiryDate_now:
  assumes "isoDate \<noteq> []" and "parse isoDate = Some now"
  shows "formatExpiryDate parse layout now isoDate = layout now @ '' (expires today)''"
  using assms
  by (simp add: formatExpiryDate_def Sub_def days_of_def Hour_def Second_def Let_def)

lemma formatExpiryDate_one_day:
  assumes "isoDate \<noteq> []" and "parse isoDate = Some (now + 24 * Hour)"
  shows "formatExpiryDate parse layout now isoDate =
     layout (now + 24 * Hour) @ '' (1 day from now)''"
  using assms
  by (simp add: formatExpiryDate_def Sub_def days_of_def Hour_def Second_def Let_def)

lemma formatExpiryDate_long_past:
  assumes "isoDate \<noteq> []" and "parse isoDate = Some expiryTime"
    and "expiryTime \<le> now - 24 * Hour"
  shows "formatExpiryDate parse layout now isoDate = layout expiryTime @ '' (EXPIRED)''"
proof -
  let ?d = "Sub expiryTime now"
  have d: "?d \<le> - (24 * Hour)"
    using assms(3) by (simp add: Sub_def Hour_def Second_def)
  then have neg: "?d < 0" by (simp add: Hour_def Second_def)
  have "1 \<le> (- ?d) div (24 * Hour)"
    using d by (simp add: Hour_def Second_def pos_imp_zdiv_pos_iff)
  then have "days_of ?d < 0" using neg by (simp add: days_of_def)
  then show ?thesis using assms(1,2) by (simp add: formatExpiryDate_def Let_def)
qed

text \<open>
  Claim C9 (expiry formatting). The instant itself gives \<open>(expires today)\<close> and one day
  ahead gives \<open>(1 day from now)\<close>, as claimed, but not every past instant is marked
  \<open>(EXPIRED)\<close>: the day count is truncated towards zero, so an expiry less than 24 hours
  ago counts 0 days and is shown as \<open>(expires today)\<close>.
\<close>

theorem formatExpiryDate_recent_past_expires_today:
  assumes "isoDate \<noteq> []" and "parse isoDate = Some expiryTime"
    and "expiryTime < now" and "now - 24 * Hour < expiryTime"
  shows "formatExpiryDate parse layout now isoDate = layout expiryTime @ '' (expires today)''"
proof -
  have "Sub expiryTime now = expiryTime - now"
    using assms(3,4) by (simp add: Sub_def Hour_def Second_def)
  moreover have "days_of (expiryTime - now) = 0"
    using assms(3,4) by (intro days_of_recent_past) simp_all
  ultimately show ?thesis
    using assms(1,2) by (simp add: formatExpiryDate_def Let_def)
qed

theorem formatExpiryDate_recent_past_expires_today_witness:
  "formatExpiryDate
     (\<lambda>s. if s = ''2026-10-31T11:00:00Z'' then Some 1793444400000000000 else None)
     (\<lambda>t. ''October 31, 2026 at 11:00 AM UTC'')
     1793448000000000000 ''2026-10-31T11:00:00Z''
   = ''October 31, 2026 at 11:00 AM UTC (expires today)''"
  using formatExpiryDate_recent_past_expires_today
    [of "''2026-10-31T11:00:00Z''"
        "\<lambda>s. if s = ''2026-10-31T11:00:00Z'' then Some 1793444400000000000 else None"
        1793444400000000000 1793448000000000000
        "\<lambda>t. ''October 31, 2026 at 11:00 AM UTC''"]
  by (simp add: Hour_def Second_def)

end
